theory Spec2Isabelle
  imports Complex_Main "HOL-Library.Word"
begin

section \<open>The model context-window cache\<close>

text \<open>
  The source is a TypeScript module of three functions over one module-level
  \<^verbatim>\<open>Map<string, number>\<close>:
  \<^verbatim>\<open>
  const modelContextWindowCache = new Map<string, number>()

  function normalizeModelId(modelId: string): string {
    return modelId.trim().toLowerCase()
  }

  export function setModelContextWindow(modelId: string, contextWindow: number): void {
    if (!modelId) return
    if (!Number.isFinite(contextWindow) || contextWindow <= 0) return
    modelContextWindowCache.set(normalizeModelId(modelId), Math.floor(contextWindow))
  }

  export function getModelContextWindow(modelId: string): number | undefined {
    if (!modelId) return undefined
    return modelContextWindowCache.get(normalizeModelId(modelId))
  }
  \<close>
  The specification calls \<^verbatim>\<open>setModelContextWindow\<close> "record" and
  \<^verbatim>\<open>getModelContextWindow\<close> "lookup".
\<close>

subsection \<open>JavaScript strings\<close>

text \<open>
  A JavaScript string is a finite sequence of 16-bit code units. \<^verbatim>\<open>!modelId\<close> on a
  string is true exactly for the string of length zero.
\<close>

type_synonym code_unit = "16 word"
type_synonym jsstring = "code_unit list"

definition ToBoolean :: "jsstring \<Rightarrow> bool" where
  "ToBoolean s \<longleftrightarrow> s \<noteq> []"

text \<open>
  \<^verbatim>\<open>String.prototype.trim\<close> removes the leading and the trailing code units that are
  ECMAScript white space or line terminators: TAB, LF, VT, FF, CR, SPACE, NBSP, the other
  space separators of Unicode (U+1680, U+2000 to U+200A, U+202F, U+205F, U+3000), the line
  and paragraph separators U+2028 and U+2029, and U+FEFF. All of them are single code units.
\<close>

definition isWhiteSpace :: "code_unit \<Rightarrow> bool" where
  "isWhiteSpace u \<longleftrightarrow>
     u \<in> set [0x0009, 0x000A, 0x000B, 0x000C, 0x000D, 0x0020, 0x00A0, 0x1680,
              0x2000, 0x2001, 0x2002, 0x2003, 0x2004, 0x2005, 0x2006, 0x2007,
              0x2008, 0x2009, 0x200A, 0x2028, 0x2029, 0x202F, 0x205F, 0x3000, 0xFEFF]"

definition trim :: "jsstring \<Rightarrow> jsstring" where
  "trim s = rev (dropWhile isWhiteSpace (rev (dropWhile isWhiteSpace s)))"

text \<open>
  \<^verbatim>\<open>String.prototype.toLowerCase\<close> is the lower-case mapping of the Unicode character
  database, a table of the JavaScript runtime and not of this module. The functions below
  take it as the parameter \<open>toLowerCase\<close>, so every theorem that quantifies over it holds
  for the runtime's mapping. The one concrete instance, used to evaluate examples, is the
  mapping on strings of ASCII code units: it sends \<^verbatim>\<open>A\<close> to \<^verbatim>\<open>Z\<close> to \<^verbatim>\<open>a\<close> to \<^verbatim>\<open>z\<close>
  and is the runtime's mapping on every string whose code units are all below \<^verbatim>\<open>0x80\<close>.
\<close>

type_synonym lowercase = "jsstring \<Rightarrow> jsstring"

definition toLowerCase_ascii :: lowercase where
  "toLowerCase_ascii s = map (\<lambda>u. if 0x41 \<le> u \<and> u \<le> 0x5A then u + 0x20 else u) s"

text \<open>String literals of the examples: the code units of an ASCII text.\<close>

definition ascii :: "string \<Rightarrow> jsstring" where
  "ascii s = map of_char s"

subsection \<open>JavaScript numbers\<close>

text \<open>
  A JavaScript number is an IEEE 754 double: NaN, one of the two infinities, or a finite
  value. The module only classifies a number (\<^verbatim>\<open>Number.isFinite\<close>), compares it with
  zero and takes its floor; all three are exact on doubles, so a finite number is modelled
  by its exact rational value. Every finite double is such a rational; both zeros are
  \<open>Num 0\<close>, which the module cannot tell apart (\<^verbatim>\<open>-0 <= 0\<close> is true).
\<close>

datatype jsnumber = NaN | PosInfinity | NegInfinity | Num rat

fun Number_isFinite :: "jsnumber \<Rightarrow> bool" where
  "Number_isFinite (Num x) = True"
| "Number_isFinite NaN = False"
| "Number_isFinite PosInfinity = False"
| "Number_isFinite NegInfinity = False"

text \<open>The operator \<^verbatim>\<open><=\<close> on numbers: false whenever an operand is NaN.\<close>

fun js_le :: "jsnumber \<Rightarrow> jsnumber \<Rightarrow> bool" where
  "js_le NaN b = False"
| "js_le a NaN = False"
| "js_le NegInfinity b = True"
| "js_le a PosInfinity = True"
| "js_le PosInfinity b = False"
| "js_le a NegInfinity = False"
| "js_le (Num x) (Num y) = (x \<le> y)"

fun Math_floor :: "jsnumber \<Rightarrow> jsnumber" where
  "Math_floor (Num x) = Num (of_int \<lfloor>x\<rfloor>)"
| "Math_floor NaN = NaN"
| "Math_floor PosInfinity = PosInfinity"
| "Math_floor NegInfinity = NegInfinity"

subsection \<open>The cache and its two operations\<close>

text \<open>
  The module-level \<^verbatim>\<open>Map<string, number>\<close> is the state: a finite map from strings to
  numbers, empty when the module is loaded. \<^verbatim>\<open>Map.prototype.set\<close> is the map update and
  \<^verbatim>\<open>Map.prototype.get\<close> the map application, with \<open>None\<close> for \<^verbatim>\<open>undefined\<close>.
\<close>

type_synonym cache = "jsstring \<rightharpoonup> jsnumber"

definition modelContextWindowCache :: cache where
  "modelContextWindowCache = Map.empty"

definition normalizeModelId :: "lowercase \<Rightarrow> jsstring \<Rightarrow> jsstring" where
  "normalizeModelId toLowerCase modelId = toLowerCase (trim modelId)"

text \<open>\<^verbatim>\<open>setModelContextWindow\<close> returns nothing; the model returns the cache it leaves.\<close>

definition setModelContextWindow :: "lowercase \<Rightarrow> jsstring \<Rightarrow> jsnumber \<Rightarrow> cache \<Rightarrow> cache" where
  "setModelContextWindow toLowerCase modelId contextWindow c =
     (if \<not> ToBoolean modelId then c
      else if \<not> Number_isFinite contextWindow \<or> js_le contextWindow (Num 0) then c
      else c(normalizeModelId toLowerCase modelId \<mapsto> Math_floor contextWindow))"

text \<open>
  \<^verbatim>\<open>getModelContextWindow\<close> returns a number or \<^verbatim>\<open>undefined\<close>; the model returns that
  value together with the cache the call leaves.
\<close>

definition getModelContextWindow :: "lowercase \<Rightarrow> jsstring \<Rightarrow> cache \<Rightarrow> jsnumber option \<times> cache" where
  "getModelContextWindow toLowerCase modelId c =
     (if \<not> ToBoolean modelId then (None, c)
      else (c (normalizeModelId toLowerCase modelId), c))"

subsection \<open>Sequences of calls\<close>

text \<open>
  A caller of the module performs calls one after the other on the shared cache. A call
  is one of the two exported functions with its arguments; what the caller sees of it is
  nothing (\<open>Void\<close>) or the value returned.
\<close>

datatype call = Record jsstring jsnumber | Lookup jsstring

datatype outcome = Void | Returned "jsnumber option"

fun perform :: "lowercase \<Rightarrow> call \<Rightarrow> cache \<Rightarrow> outcome \<times> cache" where
  "perform lc (Record modelId contextWindow) c = (Void, setModelContextWindow lc modelId contextWindow c)"
| "perform lc (Lookup modelId) c =
     (Returned (fst (getModelContextWindow lc modelId c)), snd (getModelContextWindow lc modelId c))"

fun run :: "lowercase \<Rightarrow> call list \<Rightarrow> cache \<Rightarrow> outcome list \<times> cache" where
  "run lc [] c = ([], c)"
| "run lc (x # xs) c =
     (let (r, c') = perform lc x c; (rs, c'') = run lc xs c' in (r # rs, c''))"

fun is_Record :: "call \<Rightarrow> bool" where
  "is_Record (Record modelId contextWindow) = True"
| "is_Record (Lookup modelId) = False"

section \<open>Shared facts\<close>

subsection \<open>The guard on the context window\<close>

text \<open>
  The second guard of \<^verbatim>\<open>setModelContextWindow\<close> lets exactly the finite numbers greater
  than zero through, and stops NaN, both infinities and the finite numbers at most zero.
\<close>

lemma valid_window_iff:
  "Number_isFinite w \<and> \<not> js_le w (Num 0) \<longleftrightarrow> (\<exists>x. w = Num x \<and> 0 < x)"
  by (cases w) auto

lemma invalid_window_iff:
  "\<not> Number_isFinite w \<or> js_le w (Num 0) \<longleftrightarrow>
     w = NaN \<or> w = PosInfinity \<or> w = NegInfinity \<or> (\<exists>x. w = Num x \<and> x \<le> 0)"
  by (cases w) auto

subsection \<open>Trimming\<close>

lemma trim_eq_Nil_iff: "trim s = [] \<longleftrightarrow> (\<forall>u\<in>set s. isWhiteSpace u)"
proof
  assume blank: "\<forall>u\<in>set s. isWhiteSpace u"
  then have "dropWhile isWhiteSpace s = []" by simp
  then show "trim s = []" by (simp only: trim_def rev.simps dropWhile.simps)
next
  assume "trim s = []"
  then have all: "\<forall>u\<in>set (dropWhile isWhiteSpace s). isWhiteSpace u"
    by (simp add: trim_def)
  have "dropWhile isWhiteSpace s = []"
  proof (rule ccontr)
    assume ne: "dropWhile isWhiteSpace s \<noteq> []"
    then have "\<not> isWhiteSpace (hd (dropWhile isWhiteSpace s))" by (rule hd_dropWhile)
    moreover from ne have "hd (dropWhile isWhiteSpace s) \<in> set (dropWhile isWhiteSpace s)"
      by (rule hd_in_set)
    ultimately show False using all by blast
  qed
  then show "\<forall>u\<in>set s. isWhiteSpace u" by simp
qed

lemma trim_blank:
  assumes "\<forall>u\<in>set s. isWhiteSpace u"
  shows "trim s = []"
  using assms by (simp only: trim_eq_Nil_iff)

subsection \<open>One write, one read\<close>

lemma get_after_set:
  assumes "m \<noteq> []" and "m' \<noteq> []" and "0 < x"
    and "normalizeModelId lc m' = normalizeModelId lc m"
  shows "getModelContextWindow lc m' (setModelContextWindow lc m (Num x) c) =
           (Some (Num (of_int \<lfloor>x\<rfloor>)), setModelContextWindow lc m (Num x) c)"
  using assms by (simp add: getModelContextWindow_def setModelContextWindow_def ToBoolean_def)

lemma set_same_key_overwrites:
  assumes "m \<noteq> []" and "m' \<noteq> []" and "0 < v2"
    and "normalizeModelId lc m' = normalizeModelId lc m"
  shows "setModelContextWindow lc m' (Num v2) (setModelContextWindow lc m w1 c) =
         setModelContextWindow lc m' (Num v2) c"
  using assms by (simp add: setModelContextWindow_def ToBoolean_def)

lemma set_other_key:
  assumes "normalizeModelId lc m \<noteq> k"
  shows "setModelContextWindow lc m w c k = c k"
  using assms by (simp add: setModelContextWindow_def)

lemma snd_get: "snd (getModelContextWindow lc modelId c) = c"
  by (simp add: getModelContextWindow_def)

subsection \<open>Runs of calls\<close>

lemma snd_run_Cons: "snd (run lc (x # xs) c) = snd (run lc xs (snd (perform lc x c)))"
  by (simp add: split_beta)

lemma length_run: "length (fst (run lc cs c)) = length cs"
  by (induction cs arbitrary: c) (simp_all add: split_beta)

lemma run_without_lookups: "snd (run lc cs c) = snd (run lc (filter is_Record cs) c)"
proof (induction cs arbitrary: c)
  case Nil
  show ?case by simp
next
  case (Cons x xs)
  show ?case
  proof (cases x)
    case (Record m w)
    then show ?thesis using Cons.IH by (simp add: split_beta)
  next
    case (Lookup m)
    then show ?thesis using Cons.IH [of c] by (simp add: split_beta snd_get)
  qed
qed

lemma run_unrecorded_key:
  assumes "\<forall>m w. Record m w \<in> set cs \<longrightarrow> normalizeModelId lc m \<noteq> k"
  shows "snd (run lc cs c) k = c k"
  using assms
proof (induction cs arbitrary: c)
  case Nil
  show ?case by simp
next
  case (Cons x xs)
  have rest: "\<forall>m w. Record m w \<in> set xs \<longrightarrow> normalizeModelId lc m \<noteq> k"
    using Cons.prems by simp
  have step: "snd (perform lc x c) k = c k"
  proof (cases x)
    case (Record m w)
    with Cons.prems have "normalizeModelId lc m \<noteq> k" by simp
    with Record show ?thesis by (simp add: set_other_key)
  next
    case (Lookup m)
    then show ?thesis by (simp add: snd_get)
  qed
  show ?case using Cons.IH [OF rest, of "snd (perform lc x c)"] step
    by (simp only: snd_run_Cons)
qed

subsection \<open>What the stored values and keys are\<close>

text \<open>
  Whatever the calls, a stored value is the floor of a number greater than zero, hence a
  whole number that is at least zero; and it is at least one when the number recorded was.
\<close>

lemma set_values_whole:
  assumes "\<forall>v\<in>ran c. \<exists>n::int. 0 \<le> n \<and> v = Num (of_int n)"
  shows "\<forall>v\<in>ran (setModelContextWindow lc m w c). \<exists>n::int. 0 \<le> n \<and> v = Num (of_int n)"
proof
  fix v
  assume v: "v \<in> ran (setModelContextWindow lc m w c)"
  show "\<exists>n::int. 0 \<le> n \<and> v = Num (of_int n)"
  proof (cases "ToBoolean m \<and> Number_isFinite w \<and> \<not> js_le w (Num 0)")
    case False
    then have "setModelContextWindow lc m w c = c"
      by (auto simp add: setModelContextWindow_def)
    with v assms show ?thesis by simp
  next
    case True
    then obtain x where w: "w = Num x" and x: "0 < x"
      using valid_window_iff [of w] by blast
    from True w have upd: "setModelContextWindow lc m w c
        = c(normalizeModelId lc m \<mapsto> Num (of_int \<lfloor>x\<rfloor>))"
      by (simp add: setModelContextWindow_def)
    from v upd have "v = Num (of_int \<lfloor>x\<rfloor>) \<or> v \<in> ran c"
      by (auto simp add: ran_def split: if_splits)
    then show ?thesis
    proof
      assume "v = Num (of_int \<lfloor>x\<rfloor>)"
      moreover from x have "0 \<le> \<lfloor>x\<rfloor>" by simp
      ultimately show ?thesis by blast
    next
      assume "v \<in> ran c"
      with assms show ?thesis by simp
    qed
  qed
qed

lemma run_values_whole:
  assumes "\<forall>v\<in>ran c. \<exists>n::int. 0 \<le> n \<and> v = Num (of_int n)"
  shows "\<forall>v\<in>ran (snd (run lc cs c)). \<exists>n::int. 0 \<le> n \<and> v = Num (of_int n)"
  using assms
proof (induction cs arbitrary: c)
  case Nil
  then show ?case by simp
next
  case (Cons x xs)
  have "\<forall>v\<in>ran (snd (perform lc x c)). \<exists>n::int. 0 \<le> n \<and> v = Num (of_int n)"
  proof (cases x)
    case (Record m w)
    then show ?thesis using set_values_whole [OF Cons.prems] by simp
  next
    case (Lookup m)
    then show ?thesis using Cons.prems by (simp add: snd_get)
  qed
  then show ?case using Cons.IH by (simp only: snd_run_Cons)
qed

lemma set_value_at_least_one:
  assumes "m \<noteq> []" and "1 \<le> x"
  shows "\<exists>n::int. 1 \<le> n \<and>
           fst (getModelContextWindow lc m (setModelContextWindow lc m (Num x) c))
             = Some (Num (of_int n))"
proof -
  from assms have "1 \<le> \<lfloor>x\<rfloor>" by (simp add: le_floor_iff)
  moreover from assms
  have "fst (getModelContextWindow lc m (setModelContextWindow lc m (Num x) c))
          = Some (Num (of_int \<lfloor>x\<rfloor>))"
    by (simp add: get_after_set)
  ultimately show ?thesis by blast
qed

text \<open>
  A stored key is the lower-case form of a trimmed identifier. It is non-empty when the
  identifier has a code unit that is not white space, for a lower-case mapping that sends
  no non-empty string to the empty one (as the runtime's does).
\<close>

lemma set_key_nonempty:
  assumes "\<exists>u\<in>set m. \<not> isWhiteSpace u" and "\<And>s. s \<noteq> [] \<Longrightarrow> lc s \<noteq> []"
  shows "normalizeModelId lc m \<noteq> []"
  using assms trim_eq_Nil_iff [of m] by (auto simp add: normalizeModelId_def)

text \<open>
  After a valid write under an identifier that has a code unit other than white space, a
  lookup of every identifier with the same normalized form returns the stored value; no
  condition on the identifier looked up is needed, as the empty one has another
  normalized form.
\<close>

lemma same_key_lookup_nonblank:
  assumes "\<exists>u\<in>set m. \<not> isWhiteSpace u" and "0 < x"
    and "lc (trim m') = lc (trim m)"
    and "lc [] = []" and "\<And>s. s \<noteq> [] \<Longrightarrow> lc s \<noteq> []"
  shows "fst (getModelContextWindow lc m' (setModelContextWindow lc m (Num x) c))
           = Some (Num (of_int \<lfloor>x\<rfloor>))"
proof -
  from assms(1) have tm: "trim m \<noteq> []" using trim_eq_Nil_iff [of m] by blast
  then have m: "m \<noteq> []" by (auto simp add: trim_def)
  have m': "m' \<noteq> []"
  proof
    assume "m' = []"
    then have "trim m' = []" by (simp add: trim_def)
    with assms(3,4) have "lc (trim m) = []" by simp
    with assms(5) [OF tm] show False by simp
  qed
  from assms(3) have "normalizeModelId lc m' = normalizeModelId lc m"
    by (simp add: normalizeModelId_def)
  with m m' assms(2) show ?thesis by (simp add: get_after_set)
qed

section \<open>Claims\<close>

text \<open>
  In the statements below a finite context window greater than zero is \<open>Num x\<close> with
  \<open>0 < x\<close> (lemma \<open>valid_window_iff\<close>), a non-empty identifier is a string other than
  \<open>[]\<close>, and \<open>lc\<close> is any lower-case mapping.
\<close>

text \<open>
  C1. For every non-empty model identifier and every finite context window greater than
  zero, looking the identifier up right after recording it returns the floor of the
  context window.
\<close>

theorem C1_record_then_lookup:
  assumes "modelId \<noteq> []" and "0 < x"
  shows "fst (getModelContextWindow lc modelId (setModelContextWindow lc modelId (Num x) c))
           = Some (Num (of_int \<lfloor>x\<rfloor>))"
  using assms by (simp add: get_after_set)

theorem C1_record_then_lookup_witness:
  "ascii ''GPT-4 '' \<noteq> [] \<and> (0::rat) < 8000 \<and>
   fst (getModelContextWindow toLowerCase_ascii (ascii ''GPT-4 '')
          (setModelContextWindow toLowerCase_ascii (ascii ''GPT-4 '') (Num 8000) modelContextWindowCache))
     = Some (Num 8000)"
  using C1_record_then_lookup [of "ascii ''GPT-4 ''" 8000 toLowerCase_ascii modelContextWindowCache]
  by (simp add: ascii_def)

text \<open>
  C2. Last write wins: after two valid writes whose identifiers have the same normalized
  key, a lookup under that key returns the floor of the second value, and the cache is the
  one the second write alone would have left, so nothing of the first write remains. The
  identifiers of the two writes and of the lookup need not be the same string; two writes
  and a lookup of one identifier \<open>m\<close> are the case \<open>m' = m\<close>, \<open>m'' = m\<close>.
\<close>

theorem C2_last_write_wins:
  assumes "m \<noteq> []" and "m' \<noteq> []" and "m'' \<noteq> []" and "0 < v1" and "0 < v2"
    and "lc (trim m') = lc (trim m)" and "lc (trim m'') = lc (trim m)"
  shows "fst (getModelContextWindow lc m''
            (setModelContextWindow lc m' (Num v2) (setModelContextWindow lc m (Num v1) c)))
           = Some (Num (of_int \<lfloor>v2\<rfloor>)) \<and>
         setModelContextWindow lc m' (Num v2) (setModelContextWindow lc m (Num v1) c)
           = setModelContextWindow lc m' (Num v2) c"
proof -
  from assms have same: "normalizeModelId lc m' = normalizeModelId lc m"
    and look: "normalizeModelId lc m'' = normalizeModelId lc m'"
    by (simp_all add: normalizeModelId_def)
  have repl: "setModelContextWindow lc m' (Num v2) (setModelContextWindow lc m (Num v1) c)
           = setModelContextWindow lc m' (Num v2) c"
    using assms same by (simp add: set_same_key_overwrites)
  have "fst (getModelContextWindow lc m'' (setModelContextWindow lc m' (Num v2) c))
          = Some (Num (of_int \<lfloor>v2\<rfloor>))"
    using assms look by (simp add: get_after_set)
  with repl show ?thesis by simp
qed

theorem C2_last_write_wins_witness:
  "toLowerCase_ascii (trim (ascii '' m '')) = toLowerCase_ascii (trim (ascii ''M'')) \<and>
   fst (getModelContextWindow toLowerCase_ascii (ascii ''M'')
          (setModelContextWindow toLowerCase_ascii (ascii '' m '') (Num 200)
             (setModelContextWindow toLowerCase_ascii (ascii ''M'') (Num 100) modelContextWindowCache)))
     = Some (Num 200) \<and>
   fst (getModelContextWindow toLowerCase_ascii (ascii ''m'')
          (setModelContextWindow toLowerCase_ascii (ascii ''m'') (Num 200)
             (setModelContextWindow toLowerCase_ascii (ascii ''m'') (Num 100) modelContextWindowCache)))
     = Some (Num 200)"
proof -
  have h: "ascii ''M'' \<noteq> []" and h': "ascii '' m '' \<noteq> []" and k: "ascii ''m'' \<noteq> []"
    by (simp_all add: ascii_def)
  have p1: "(0::rat) < 100" and p2: "(0::rat) < 200" by simp_all
  have e: "toLowerCase_ascii (trim (ascii '' m '')) = toLowerCase_ascii (trim (ascii ''M''))"
    by (simp add: ascii_def trim_def isWhiteSpace_def toLowerCase_ascii_def)
  from C2_last_write_wins [where lc = toLowerCase_ascii and c = modelContextWindowCache,
      OF h h' h p1 p2 e refl, THEN conjunct1]
  have mixed: "fst (getModelContextWindow toLowerCase_ascii (ascii ''M'')
          (setModelContextWindow toLowerCase_ascii (ascii '' m '') (Num 200)
             (setModelContextWindow toLowerCase_ascii (ascii ''M'') (Num 100) modelContextWindowCache)))
     = Some (Num 200)" by simp
  from C2_last_write_wins [where lc = toLowerCase_ascii and c = modelContextWindowCache,
      OF k k k p1 p2 refl refl, THEN conjunct1]
  have one: "fst (getModelContextWindow toLowerCase_ascii (ascii ''m'')
          (setModelContextWindow toLowerCase_ascii (ascii ''m'') (Num 200)
             (setModelContextWindow toLowerCase_ascii (ascii ''m'') (Num 100) modelContextWindowCache)))
     = Some (Num 200)" by simp
  from e mixed one show ?thesis by blast
qed



text \<open>
  C4. For every identifier and every context window that is not a finite number or is at
  most zero (NaN, an infinity, zero, a negative number), recording is a no-op: the cache
  it leaves is the cache it found, whatever that held, and the call returns normally.
\<close>

theorem C4_invalid_window_noop:
  assumes "w = NaN \<or> w = PosInfinity \<or> w = NegInfinity \<or> (\<exists>x. w = Num x \<and> x \<le> 0)"
  shows "setModelContextWindow lc modelId w c = c \<and> perform lc (Record modelId w) c = (Void, c)"
proof -
  from assms have "\<not> Number_isFinite w \<or> js_le w (Num 0)"
    using invalid_window_iff [of w] by blast
  then have "setModelContextWindow lc modelId w c = c"
    by (simp add: setModelContextWindow_def)
  then show ?thesis by simp
qed

theorem C4_invalid_window_noop_witness:
  "(let m = ascii ''m''; c = setModelContextWindow toLowerCase_ascii m (Num 100) modelContextWindowCache in
     setModelContextWindow toLowerCase_ascii m (Num 0) c = c \<and>
     setModelContextWindow toLowerCase_ascii m (Num (- 5)) c = c \<and>
     setModelContextWindow toLowerCase_ascii m NaN c = c \<and>
     setModelContextWindow toLowerCase_ascii m PosInfinity c = c \<and>
     fst (getModelContextWindow toLowerCase_ascii m
            (setModelContextWindow toLowerCase_ascii m (Num (- 5)) c)) = Some (Num 100))"
proof -
  let ?m = "ascii ''m''"
  let ?c = "setModelContextWindow toLowerCase_ascii ?m (Num 100) modelContextWindowCache"
  have zero: "setModelContextWindow toLowerCase_ascii ?m (Num 0) ?c = ?c"
    using C4_invalid_window_noop [of "Num 0" toLowerCase_ascii ?m ?c] by simp
  have neg: "setModelContextWindow toLowerCase_ascii ?m (Num (- 5)) ?c = ?c"
    using C4_invalid_window_noop [of "Num (- 5)" toLowerCase_ascii ?m ?c] by simp
  have nan: "setModelContextWindow toLowerCase_ascii ?m NaN ?c = ?c"
    using C4_invalid_window_noop [of NaN toLowerCase_ascii ?m ?c] by simp
  have inf: "setModelContextWindow toLowerCase_ascii ?m PosInfinity ?c = ?c"
    using C4_invalid_window_noop [of PosInfinity toLowerCase_ascii ?m ?c] by simp
  have "fst (getModelContextWindow toLowerCase_ascii ?m ?c) = Some (Num 100)"
    by (simp add: get_after_set ascii_def)
  with zero neg nan inf show ?thesis by (simp add: Let_def)
qed

text \<open>
  C5. Every stored value is a whole number that is at least one. The code does not keep
  this: the guard \<^verbatim>\<open>contextWindow <= 0\<close> is applied before \<^verbatim>\<open>Math.floor\<close>, so a
  context window strictly between zero and one passes the guard and is stored as zero,
  which a later lookup returns.
\<close>

theorem C5_fraction_stored_as_zero:
  assumes "modelId \<noteq> []" and "0 < x" and "x < 1"
  shows "fst (getModelContextWindow lc modelId (setModelContextWindow lc modelId (Num x) c))
           = Some (Num 0)"
proof -
  from assms have "\<lfloor>x\<rfloor> = 0" by (simp add: floor_eq_iff)
  with assms show ?thesis by (simp add: get_after_set)
qed

theorem C5_fraction_stored_as_zero_witness:
  "ascii ''m'' \<noteq> [] \<and> (0::rat) < 1 / 2 \<and> (1::rat) / 2 < 1 \<and>
   fst (getModelContextWindow toLowerCase_ascii (ascii ''m'')
          (setModelContextWindow toLowerCase_ascii (ascii ''m'') (Num (1 / 2)) modelContextWindowCache))
     = Some (Num 0)"
proof -
  have h: "ascii ''m'' \<noteq> []" by (simp add: ascii_def)
  have p1: "(0::rat) < 1 / 2" and p2: "(1::rat) / 2 < 1" by simp_all
  from C5_fraction_stored_as_zero [OF h p1 p2, of toLowerCase_ascii modelContextWindowCache]
  show ?thesis using h p1 p2 by blast
qed

text \<open>
  C6. Every stored key is a non-empty string, also when the identifier recorded is white
  space only. The code does not keep this: the guard \<^verbatim>\<open>!modelId\<close> is applied before
  \<^verbatim>\<open>normalizeModelId\<close>, so a non-empty identifier of white space only passes the guard,
  trims to the empty string and has its value stored under the empty key (the lower-case
  form of the empty string is the empty string).
\<close>

theorem C6_blank_id_stored_under_empty_key:
  assumes "modelId \<noteq> []" and "\<forall>u\<in>set modelId. isWhiteSpace u" and "0 < x" and "lc [] = []"
  shows "setModelContextWindow lc modelId (Num x) c [] = Some (Num (of_int \<lfloor>x\<rfloor>))"
  using assms
  by (simp add: setModelContextWindow_def ToBoolean_def normalizeModelId_def trim_blank)

theorem C6_blank_id_stored_under_empty_key_witness:
  "ascii '' '' \<noteq> [] \<and> list_all isWhiteSpace (ascii '' '') \<and> (0::rat) < 100 \<and>
   toLowerCase_ascii [] = [] \<and>
   setModelContextWindow toLowerCase_ascii (ascii '' '') (Num 100) modelContextWindowCache []
     = Some (Num 100)"
proof -
  have h: "ascii '' '' \<noteq> []" by (simp add: ascii_def)
  have ws: "\<forall>u\<in>set (ascii '' ''). isWhiteSpace u" by (simp add: ascii_def isWhiteSpace_def)
  have p: "(0::rat) < 100" by simp
  have e: "toLowerCase_ascii [] = []" by (simp add: toLowerCase_ascii_def)
  from h ws p e
    C6_blank_id_stored_under_empty_key [of "ascii '' ''" 100 toLowerCase_ascii modelContextWindowCache]
  have "setModelContextWindow toLowerCase_ascii (ascii '' '') (Num 100) modelContextWindowCache []
     = Some (Num 100)" by simp
  with h ws p e show ?thesis by (simp only: list_all_iff) blast
qed

text \<open>
  C7. Recording stores the integer floor of the context window: for every non-empty
  identifier and every finite context window \<open>x\<close> greater than zero, the value a lookup
  returns is the whole number \<open>n\<close> with \<open>n \<le> x < n + 1\<close>. The example records the double
  that the literal \<^verbatim>\<open>100.9\<close> denotes and reads 100.
\<close>

theorem C7_floor_truncation:
  assumes "modelId \<noteq> []" and "0 < x"
  shows "\<exists>n::int. fst (getModelContextWindow lc modelId (setModelContextWindow lc modelId (Num x) c))
                     = Some (Num (of_int n)) \<and> of_int n \<le> x \<and> x < of_int n + 1"
proof (intro exI conjI)
  show "fst (getModelContextWindow lc modelId (setModelContextWindow lc modelId (Num x) c))
          = Some (Num (of_int \<lfloor>x\<rfloor>))"
    using assms by (simp add: get_after_set)
  show "of_int \<lfloor>x\<rfloor> \<le> x" by (rule of_int_floor_le)
  show "x < of_int \<lfloor>x\<rfloor> + 1" using floor_correct [of x] by simp
qed

theorem C7_floor_truncation_witness:
  "ascii ''m'' \<noteq> [] \<and> (0::rat) < 3550103143763149 / 35184372088832 \<and>
   fst (getModelContextWindow toLowerCase_ascii (ascii ''m'')
          (setModelContextWindow toLowerCase_ascii (ascii ''m'')
             (Num (3550103143763149 / 35184372088832)) modelContextWindowCache))
     = Some (Num 100)"
proof -
  let ?x = "3550103143763149 / 35184372088832 :: rat"
  have h: "ascii ''m'' \<noteq> []" by (simp add: ascii_def)
  have p: "0 < ?x" by simp
  from C7_floor_truncation [OF h p, of toLowerCase_ascii modelContextWindowCache]
  obtain n :: int where r: "fst (getModelContextWindow toLowerCase_ascii (ascii ''m'')
          (setModelContextWindow toLowerCase_ascii (ascii ''m'') (Num ?x) modelContextWindowCache))
        = Some (Num (of_int n))"
    and lo: "of_int n \<le> ?x" and hi: "?x < of_int n + 1"
    by blast
  from lo hi have "\<lfloor>?x\<rfloor> = n" by (intro floor_unique)
  moreover have "\<lfloor>?x\<rfloor> = 100" by (simp add: floor_eq_iff)
  ultimately have "n = 100" by simp
  with r h p show ?thesis by simp
qed

text \<open>
  C8. For the empty identifier, recording is a no-op and a lookup returns
  \<^verbatim>\<open>undefined\<close> at once, whatever the cache holds. The example takes a cache that holds
  a value under the empty key.
\<close>

theorem C8_empty_id:
  "setModelContextWindow lc [] w c = c \<and> getModelContextWindow lc [] c = (None, c)"
  by (simp add: setModelContextWindow_def getModelContextWindow_def ToBoolean_def)

theorem C8_empty_id_witness:
  "(let c = setModelContextWindow toLowerCase_ascii (ascii '' '') (Num 7) modelContextWindowCache in
     c [] = Some (Num 7) \<and>
     setModelContextWindow toLowerCase_ascii [] (Num 100) c = c \<and>
     getModelContextWindow toLowerCase_ascii [] c = (None, c))"
proof -
  let ?c = "setModelContextWindow toLowerCase_ascii (ascii '' '') (Num 7) modelContextWindowCache"
  have "?c [] = Some (Num 7)"
    by (simp add: setModelContextWindow_def ToBoolean_def normalizeModelId_def trim_def
        isWhiteSpace_def ascii_def toLowerCase_ascii_def)
  with C8_empty_id [of toLowerCase_ascii "Num 100" ?c] show ?thesis
    by (simp only: Let_def)
qed

text \<open>
  C9. A lookup is a pure read: it leaves the cache as it found it. Hence a run of calls
  leaves the cache that the run without its lookups leaves, and a later lookup returns the
  same value whether or not lookups were made in between.
\<close>

theorem C9_lookup_pure_read:
  "snd (getModelContextWindow lc modelId c) = c \<and>
   snd (run lc cs c) = snd (run lc (filter is_Record cs) c) \<and>
   fst (getModelContextWindow lc modelId (snd (run lc cs c)))
     = fst (getModelContextWindow lc modelId (snd (run lc (filter is_Record cs) c)))"
  using run_without_lookups [of lc cs c] by (simp add: snd_get)

theorem C9_lookup_pure_read_witness:
  "(let a = ascii ''a''; b = ascii ''b'';
        cs = [Record a (Num 1), Lookup a, Lookup b, Lookup [], Record b (Num 2)] in
     filter is_Record cs = [Record a (Num 1), Record b (Num 2)] \<and>
     snd (run toLowerCase_ascii cs modelContextWindowCache)
       = snd (run toLowerCase_ascii [Record a (Num 1), Record b (Num 2)] modelContextWindowCache) \<and>
     fst (getModelContextWindow toLowerCase_ascii a (snd (run toLowerCase_ascii cs modelContextWindowCache)))
       = Some (Num 1))"
proof -
  let ?a = "ascii ''a''" and ?b = "ascii ''b''"
  let ?cs = "[Record ?a (Num 1), Lookup ?a, Lookup ?b, Lookup [], Record ?b (Num 2)]"
  have f: "filter is_Record ?cs = [Record ?a (Num 1), Record ?b (Num 2)]" by simp
  from C9_lookup_pure_read [of toLowerCase_ascii ?a modelContextWindowCache ?cs]
  have pure: "snd (run toLowerCase_ascii ?cs modelContextWindowCache)
       = snd (run toLowerCase_ascii (filter is_Record ?cs) modelContextWindowCache)"
    by blast
  have "fst (getModelContextWindow toLowerCase_ascii ?a
          (snd (run toLowerCase_ascii [Record ?a (Num 1), Record ?b (Num 2)] modelContextWindowCache)))
       = Some (Num 1)"
    by (simp add: setModelContextWindow_def getModelContextWindow_def ToBoolean_def
        normalizeModelId_def trim_def isWhiteSpace_def ascii_def toLowerCase_ascii_def)
  with f pure show ?thesis by (simp only: Let_def)
qed

text \<open>
  C10. Both operations are total: the model of each is a function with no failing branch,
  as the source has no \<^verbatim>\<open>throw\<close> and calls only built-ins that do not throw on a
  string and a number, so a run of calls yields one outcome per call. A lookup of an
  identifier whose key no call of the run recorded, made after any run from the empty
  cache, returns \<^verbatim>\<open>undefined\<close>.
\<close>

theorem C10_unrecorded_key_not_found:
  assumes "\<forall>m w. Record m w \<in> set cs \<longrightarrow> normalizeModelId lc m \<noteq> normalizeModelId lc modelId"
  shows "fst (getModelContextWindow lc modelId (snd (run lc cs modelContextWindowCache))) = None \<and>
         length (fst (run lc cs modelContextWindowCache)) = length cs"
proof -
  have "snd (run lc cs modelContextWindowCache) (normalizeModelId lc modelId) = None"
    using run_unrecorded_key [OF assms, of modelContextWindowCache]
    by (simp add: modelContextWindowCache_def)
  then show ?thesis by (simp add: getModelContextWindow_def length_run)
qed

theorem C10_unrecorded_key_not_found_witness:
  "(let cs = [Record (ascii ''GPT-4 '') (Num 8000), Lookup (ascii ''gpt-4'')] in
     fst (getModelContextWindow toLowerCase_ascii (ascii ''never-seen'')
            (snd (run toLowerCase_ascii cs modelContextWindowCache))) = None \<and>
     fst (run toLowerCase_ascii cs modelContextWindowCache) = [Void, Returned (Some (Num 8000))])"
proof -
  let ?cs = "[Record (ascii ''GPT-4 '') (Num 8000), Lookup (ascii ''gpt-4'')]"
  have h: "\<forall>m w. Record m w \<in> set ?cs \<longrightarrow>
        normalizeModelId toLowerCase_ascii m \<noteq> normalizeModelId toLowerCase_ascii (ascii ''never-seen'')"
    by (simp add: normalizeModelId_def trim_def isWhiteSpace_def ascii_def toLowerCase_ascii_def)
  have r: "fst (run toLowerCase_ascii ?cs modelContextWindowCache) = [Void, Returned (Some (Num 8000))]"
    by (simp add: setModelContextWindow_def getModelContextWindow_def ToBoolean_def
        normalizeModelId_def trim_def isWhiteSpace_def ascii_def toLowerCase_ascii_def)
  from C10_unrecorded_key_not_found [OF h] r show ?thesis
    by (simp only: Let_def)
qed

end
